theory Spec2Isabelle
  imports Main "HOL-Library.Sublist" "HOL-Library.Multiset"
    "HOL-Library.Char_ord" "HOL-Library.List_Lexorder"
begin

section \<open>Values and text\<close>

text \<open>
  The functions of \<^verbatim>\<open>src/utils.py\<close> receive dynamically typed values and test them
  with \<^verbatim>\<open>isinstance\<close>, so the model has a small universe of Python values.
  A \<^verbatim>\<open>str\<close> is a \<^typ>\<open>string\<close>, one \<^typ>\<open>char\<close> per code point; a \<^typ>\<open>char\<close> has
  eight bits, so the texts of the model are those whose code points are below 256.
  The character classes and case mappings below are Python's on all of these code
  points.
\<close>

datatype pyval =
    PyNone
  | PyBool bool
  | PyInt int
  | PyStr (str_of: string)
  | PyList (items_of: "pyval list")

text \<open>\<^verbatim>\<open>isinstance(v, str)\<close> and \<^verbatim>\<open>isinstance(v, list)\<close>.\<close>

fun isinstance_str :: "pyval \<Rightarrow> bool" where
  "isinstance_str (PyStr s) = True"
| "isinstance_str v = False"

fun isinstance_list :: "pyval \<Rightarrow> bool" where
  "isinstance_list (PyList xs) = True"
| "isinstance_list v = False"

text \<open>The exceptions that the modelled code can let through to its caller.\<close>

datatype error = FileNotFoundError | JSONDecodeError | AttributeError | KeyError | TypeError

subsection \<open>Character classes\<close>

abbreviation code :: "char \<Rightarrow> nat" where
  "code c \<equiv> of_char c"

definition is_ascii_upper :: "char \<Rightarrow> bool" where
  "is_ascii_upper c = (65 \<le> code c \<and> code c \<le> 90)"

definition is_ascii_lower :: "char \<Rightarrow> bool" where
  "is_ascii_lower c = (97 \<le> code c \<and> code c \<le> 122)"

definition is_digit :: "char \<Rightarrow> bool" where
  "is_digit c = (48 \<le> code c \<and> code c \<le> 57)"

text \<open>The class \<^verbatim>\<open>[a-zA-Z]\<close> of the pattern at line 149.\<close>

definition is_letter :: "char \<Rightarrow> bool" where
  "is_letter c = (is_ascii_upper c \<or> is_ascii_lower c)"

text \<open>
  \<^verbatim>\<open>str.isspace\<close>, which \<^verbatim>\<open>str.strip()\<close>, \<^verbatim>\<open>str.split()\<close> and the pattern \<^verbatim>\<open>\s\<close> all use:
  tab, line feed, vertical tab, form feed, carriage return, the four separators
  \<^verbatim>\<open>\x1c\<close> to \<^verbatim>\<open>\x1f\<close>, the space, the next-line control \<^verbatim>\<open>\x85\<close> and the no-break
  space \<^verbatim>\<open>\xa0\<close>.
\<close>

definition is_space :: "char \<Rightarrow> bool" where
  "is_space c = ((9 \<le> code c \<and> code c \<le> 13) \<or> (28 \<le> code c \<and> code c \<le> 32)
                 \<or> code c = 133 \<or> code c = 160)"

text \<open>
  \<^verbatim>\<open>str.isalnum\<close>: beside the ASCII letters and digits, the ordinal indicators, the
  superscript digits, the micro sign, the fractions, and the letters from \<^verbatim>\<open>\xc0\<close> on,
  without the multiplication and division signs.
\<close>

definition is_alnum :: "char \<Rightarrow> bool" where
  "is_alnum c =
     (is_letter c \<or> is_digit c \<or> code c = 170 \<or> (178 \<le> code c \<and> code c \<le> 179)
      \<or> code c = 181 \<or> (185 \<le> code c \<and> code c \<le> 186) \<or> (188 \<le> code c \<and> code c \<le> 190)
      \<or> (192 \<le> code c \<and> code c \<le> 214) \<or> (216 \<le> code c \<and> code c \<le> 246)
      \<or> 248 \<le> code c)"

text \<open>The class \<^verbatim>\<open>\w\<close> of a text pattern: what is alphanumeric, and the underscore.\<close>

definition is_word_char :: "char \<Rightarrow> bool" where
  "is_word_char c = (is_alnum c \<or> code c = 95)"

text \<open>The characters that \<^verbatim>\<open>str.lower()\<close> changes; each moves up by 32.\<close>

definition is_upper :: "char \<Rightarrow> bool" where
  "is_upper c = ((65 \<le> code c \<and> code c \<le> 90) \<or> (192 \<le> code c \<and> code c \<le> 214)
                 \<or> (216 \<le> code c \<and> code c \<le> 222))"

definition to_lower :: "char \<Rightarrow> char" where
  "to_lower c = (if is_upper c then char_of (code c + 32) else c)"

text \<open>The cased characters, which \<^verbatim>\<open>str.title()\<close> looks for.\<close>

definition is_cased :: "char \<Rightarrow> bool" where
  "is_cased c =
     (is_letter c \<or> code c = 170 \<or> code c = 181 \<or> code c = 186
      \<or> (192 \<le> code c \<and> code c \<le> 214) \<or> (216 \<le> code c \<and> code c \<le> 246)
      \<or> 248 \<le> code c)"

text \<open>
  The upper-case form. The lower-case letters move down by 32. Three characters have an
  upper-case form that is not one code point below 256: the sharp s, whose title-case
  form is the two letters \<^verbatim>\<open>Ss\<close>, and the micro sign and the y with diaeresis, whose
  forms are U+039C and U+0178. The last two cannot be written in this model and are
  left unchanged by \<open>to_upper\<close>; \<open>extract_city\<close> never title-cases them, because only
  the letters \<^verbatim>\<open>a\<close> to \<^verbatim>\<open>z\<close> reach line 154 (lemma \<open>city_words_lower\<close> below).
\<close>

definition to_upper :: "char \<Rightarrow> char" where
  "to_upper c =
     (if (97 \<le> code c \<and> code c \<le> 122) \<or> (224 \<le> code c \<and> code c \<le> 246)
         \<or> (248 \<le> code c \<and> code c \<le> 254)
      then char_of (code c - 32) else c)"

definition title_char :: "char \<Rightarrow> string" where
  "title_char c = (if code c = 223 then ''Ss'' else [to_upper c])"

subsection \<open>String methods\<close>

text \<open>\<^verbatim>\<open>s.lower()\<close>.\<close>

definition py_lower :: "string \<Rightarrow> string" where
  "py_lower s = map to_lower s"

text \<open>\<^verbatim>\<open>s.strip()\<close>: whitespace is dropped at both ends.\<close>

definition py_strip :: "string \<Rightarrow> string" where
  "py_strip s = rev (dropWhile is_space (rev (dropWhile is_space s)))"

text \<open>
  \<^verbatim>\<open>s.split()\<close>: the maximal runs of non-whitespace characters, in order. The first
  argument is the word being read, reversed.
\<close>

fun split_from :: "string \<Rightarrow> string \<Rightarrow> string list" where
  "split_from cur [] = (if cur = [] then [] else [rev cur])"
| "split_from cur (c # cs) =
     (if is_space c
      then (if cur = [] then split_from [] cs else rev cur # split_from [] cs)
      else split_from (c # cur) cs)"

definition py_split :: "string \<Rightarrow> string list" where
  "py_split s = split_from [] s"

text \<open>
  \<^verbatim>\<open>s.split(sep)\<close> for a separator of one character: every occurrence of the separator
  ends a token, and empty tokens are kept, so the empty string gives one empty token.
\<close>

fun split_on :: "char \<Rightarrow> string \<Rightarrow> string list" where
  "split_on sep [] = [[]]"
| "split_on sep (c # cs) =
     (if c = sep then [] # split_on sep cs
      else (case split_on sep cs of
              [] \<Rightarrow> [[c]]
            | w # ws \<Rightarrow> (c # w) # ws))"

text \<open>\<^verbatim>\<open>sep.join(parts)\<close>.\<close>

fun py_join :: "string \<Rightarrow> string list \<Rightarrow> string" where
  "py_join sep [] = []"
| "py_join sep [w] = w"
| "py_join sep (w # ws) = w @ sep @ py_join sep ws"

text \<open>
  \<^verbatim>\<open>s.title()\<close>: a character that follows a cased character is lowercased, any other
  character is title-cased. The flag says whether the previous character was cased.
\<close>

fun title_from :: "bool \<Rightarrow> string \<Rightarrow> string" where
  "title_from prev [] = []"
| "title_from prev (c # cs) =
     (if prev then [to_lower c] else title_char c) @ title_from (is_cased c) cs"

definition py_title :: "string \<Rightarrow> string" where
  "py_title s = title_from False s"

text \<open>\<^verbatim>\<open>s.endswith(suf)\<close>, and \<^verbatim>\<open>s.endswith(tuple(sufs))\<close>, true when some member is a suffix.\<close>

definition endswith :: "string \<Rightarrow> string \<Rightarrow> bool" where
  "endswith s suf = (length suf \<le> length s \<and> drop (length s - length suf) s = suf)"

definition endswith_any :: "string \<Rightarrow> string list \<Rightarrow> bool" where
  "endswith_any s sufs = list_ex (endswith s) sufs"

section \<open>extract_city\<close>

text \<open>
  \<^verbatim>\<open>re.sub(r'\b(egypt)\b', '', location)\<close>. The scan goes left to right over the
  subject; \<open>prev\<close> is the character of the subject before the current position (none at
  the start). The pattern matches at a position when the five characters follow, the
  character before is not a word character and the character after is not one (the
  letters \<open>e\<close> and \<open>t\<close> are word characters, so each \<^verbatim>\<open>\b\<close> asks for a non-word
  neighbour or an end of the subject). A match is deleted and the scan resumes behind it.
\<close>

definition boundary_before :: "char option \<Rightarrow> bool" where
  "boundary_before prev = (case prev of None \<Rightarrow> True | Some p \<Rightarrow> \<not> is_word_char p)"

definition boundary_after :: "string \<Rightarrow> bool" where
  "boundary_after rest = (case rest of [] \<Rightarrow> True | n # _ \<Rightarrow> \<not> is_word_char n)"

definition egypt_here :: "char option \<Rightarrow> string \<Rightarrow> bool" where
  "egypt_here prev s =
     (take 5 s = ''egypt'' \<and> boundary_before prev \<and> boundary_after (drop 5 s))"

function sub_egypt :: "char option \<Rightarrow> string \<Rightarrow> string" where
  "sub_egypt prev [] = []"
| "sub_egypt prev (c # cs) =
     (if egypt_here prev (c # cs)
      then sub_egypt (Some CHR ''t'') (drop 5 (c # cs))
      else c # sub_egypt (Some c) cs)"
  by pat_completeness auto
termination
  by (relation "measure (\<lambda>(prev, s). length s)") auto

definition exclude_egypt :: "string \<Rightarrow> string" where
  "exclude_egypt s = sub_egypt None s"

text \<open>\<^verbatim>\<open>re.sub(r'[^a-zA-Z\s]', '', location)\<close>: only letters and whitespace are kept.\<close>

definition only_chars :: "string \<Rightarrow> string" where
  "only_chars s = filter (\<lambda>c. is_letter c \<or> is_space c) s"

text \<open>
  \<^verbatim>\<open>location.strip()\<close> on a value: only text has the method; on any other value of
  the universe the attribute lookup raises \<^verbatim>\<open>AttributeError\<close>.
\<close>

definition method_strip :: "pyval \<Rightarrow> error + string" where
  "method_strip v = (case v of PyStr s \<Rightarrow> Inr (py_strip s) | _ \<Rightarrow> Inl AttributeError)"

text \<open>
  \<^verbatim>\<open>extract_city(location)\<close>. The result \<open>Inr None\<close> is Python's \<^verbatim>\<open>None\<close>, returned
  for a value that is not text and, by falling off the end of the function, when no word
  is left; \<open>Inl\<close> is an exception that leaves the function. After \<^verbatim>\<open>strip()\<close> has
  returned, every value in the function is text or a list of text, and no later
  operation has a failure case.
\<close>

definition extract_city :: "pyval \<Rightarrow> error + string option" where
  "extract_city location =
     (if \<not> isinstance_str location then Inr None
      else (case method_strip location of
              Inl e \<Rightarrow> Inl e
            | Inr stripped \<Rightarrow>
                (let loc = exclude_egypt (py_lower stripped) in
                 if loc = [] then Inr (Some ''Egypt'')
                 else (let parts = py_split (only_chars loc) in
                       if length parts > 0 then Inr (Some (py_title (py_join '' '' parts)))
                       else Inr None))))"

text \<open>
  The location after line 142 of the source: trimmed, lowercased, and with the country
  name removed; the words that remain for the city name; and the title-casing of one
  word as the specification words it: the first letter in upper case, the others in
  lower case. These are used to state what \<open>extract_city\<close> returns.
\<close>

definition normalized :: "string \<Rightarrow> string" where
  "normalized s = exclude_egypt (py_lower (py_strip s))"

definition city_words :: "string \<Rightarrow> string list" where
  "city_words s = py_split (only_chars (normalized s))"

definition title_word :: "string \<Rightarrow> string" where
  "title_word w = (case w of [] \<Rightarrow> [] | c # cs \<Rightarrow> to_upper c # map to_lower cs)"

section \<open>detect_language\<close>

text \<open>
  A repository record is a dictionary with text keys. The keyword table is the
  dictionary that \<^verbatim>\<open>json.load\<close> builds from the configuration file: language names
  with their identifier lists, in insertion order.
\<close>

type_synonym repo = "string \<rightharpoonup> pyval"

type_synonym keyword_table = "(string \<times> string list) list"

text \<open>\<^verbatim>\<open>repo.get(key)\<close>: the value, or \<^verbatim>\<open>None\<close> for an absent key.\<close>

definition dict_get :: "repo \<Rightarrow> string \<Rightarrow> pyval" where
  "dict_get repo key = (case repo key of None \<Rightarrow> PyNone | Some v \<Rightarrow> v)"

text \<open>
  The part of the world that \<open>detect_language\<close> touches: what opening and parsing
  \<^verbatim>\<open>./data/json_files/languages_keywords.json\<close> yields (an exception when the file is
  missing or is not JSON, the table otherwise), and how many times the file has been
  opened so far.
\<close>

record world =
  config :: "error + keyword_table"
  opens :: nat

text \<open>Lines 172 to 174: \<^verbatim>\<open>open\<close> and \<^verbatim>\<open>json.load\<close>.\<close>

definition load_keywords :: "world \<Rightarrow> (error + keyword_table) \<times> world" where
  "load_keywords w = (config w, w\<lparr>opens := Suc (opens w)\<rparr>)"

text \<open>The check of lines 166 to 168.\<close>

definition fields_ok :: "repo \<Rightarrow> bool" where
  "fields_ok repo =
     (isinstance_str (dict_get repo ''repo_description'') \<and>
      isinstance_str (dict_get repo ''topics'') \<and>
      isinstance_list (dict_get repo ''filenames''))"

text \<open>Lines 178 to 181: the candidate word set.\<close>

definition text_words :: "string \<Rightarrow> string \<Rightarrow> string set" where
  "text_words description topics =
     set (py_split (py_lower description) @ split_on CHR '','' (py_lower topics))"

text \<open>
  Lines 191 to 194, the loop over the filenames for one language. The elements of the
  list are any values; one that is not text has no \<^verbatim>\<open>endswith\<close>, and the call raises.
\<close>

fun any_file_endswith :: "pyval list \<Rightarrow> string list \<Rightarrow> error + bool" where
  "any_file_endswith [] identifiers = Inr False"
| "any_file_endswith (file # files) identifiers =
     (case file of
        PyStr name \<Rightarrow>
          (if endswith_any name identifiers then Inr True
           else any_file_endswith files identifiers)
      | _ \<Rightarrow> Inl AttributeError)"

text \<open>Lines 184 to 197, the loop over the table.\<close>

fun match_languages :: "keyword_table \<Rightarrow> string set \<Rightarrow> pyval list \<Rightarrow> error + string option" where
  "match_languages [] words files = Inr None"
| "match_languages ((lang, identifiers) # rest) words files =
     (if list_ex (\<lambda>word. word \<in> words) identifiers then Inr (Some lang)
      else (case any_file_endswith files identifiers of
              Inl e \<Rightarrow> Inl e
            | Inr True \<Rightarrow> Inr (Some lang)
            | Inr False \<Rightarrow> match_languages rest words files))"

definition detect_language :: "repo \<Rightarrow> world \<Rightarrow> (error + string option) \<times> world" where
  "detect_language repo w =
     (if \<not> fields_ok repo then (Inr None, w)
      else (case load_keywords w of
              (Inl e, w') \<Rightarrow> (Inl e, w')
            | (Inr languages_keywords, w') \<Rightarrow>
                (match_languages languages_keywords
                   (text_words (str_of (dict_get repo ''repo_description''))
                               (str_of (dict_get repo ''topics'')))
                   (items_of (dict_get repo ''filenames'')),
                 w')))"

text \<open>
  A record that passes the check of lines 166 to 168, with the values of its three
  fields named: text, text and a list of any values. It may have any other fields.
\<close>

definition repo_fields :: "repo \<Rightarrow> string \<Rightarrow> string \<Rightarrow> pyval list \<Rightarrow> bool" where
  "repo_fields repo description topics files =
     (repo ''repo_description'' = Some (PyStr description) \<and>
      repo ''topics'' = Some (PyStr topics) \<and>
      repo ''filenames'' = Some (PyList files))"

text \<open>
  The vocabulary of the specification, used to state what the loop returns. A language
  matches by keyword when one of its identifiers is in the candidate word set. An
  element of the filename list ends with an identifier when it is text and one of the
  identifiers is a suffix of it. The filename scan passes over a language when every
  element of the list is text and none ends with an identifier of the language; the loop
  passes over a language when it has no keyword match and the scan passes over it.
\<close>

definition keyword_match :: "string set \<Rightarrow> string list \<Rightarrow> bool" where
  "keyword_match words identifiers = (\<exists>word\<in>set identifiers. word \<in> words)"

definition ends_with_identifier :: "string list \<Rightarrow> pyval \<Rightarrow> bool" where
  "ends_with_identifier identifiers file =
     (isinstance_str file \<and> (\<exists>ident\<in>set identifiers. suffix ident (str_of file)))"

definition scan_passes :: "pyval list \<Rightarrow> string list \<Rightarrow> bool" where
  "scan_passes files identifiers =
     (\<forall>file\<in>set files. isinstance_str file \<and> \<not> ends_with_identifier identifiers file)"

definition passed_over :: "string set \<Rightarrow> pyval list \<Rightarrow> string \<times> string list \<Rightarrow> bool" where
  "passed_over words files entry =
     (\<not> keyword_match words (snd entry) \<and> scan_passes files (snd entry))"

definition language_matches :: "string set \<Rightarrow> pyval list \<Rightarrow> string \<times> string list \<Rightarrow> bool" where
  "language_matches words files entry =
     (keyword_match words (snd entry)
      \<or> (\<exists>file\<in>set files. ends_with_identifier (snd entry) file))"

text \<open>
  The first language of the table with an identifier in the candidate word set, which is
  what the specification's sentence on keyword matches names, read on its own.
\<close>

definition first_keyword_language :: "keyword_table \<Rightarrow> string set \<Rightarrow> string option" where
  "first_keyword_language table words =
     map_option fst (find (\<lambda>entry. keyword_match words (snd entry)) table)"

text \<open>A record with exactly the three fields, its filenames all text.\<close>

definition repo_of :: "string \<Rightarrow> string \<Rightarrow> string list \<Rightarrow> repo" where
  "repo_of description topics names =
     [''repo_description'' \<mapsto> PyStr description,
      ''topics'' \<mapsto> PyStr topics,
      ''filenames'' \<mapsto> PyList (map PyStr names)]"

section \<open>top_ranked_repos\<close>

text \<open>
  A table is a list of column names and a list of rows, each row giving the cell of
  every column. A cell is a number or text; the numbers are of any linearly ordered
  type, which covers integers and the finite floating-point values (a missing value,
  which pandas orders last, is not a cell of the model). \<^verbatim>\<open>DataFrame.sort_values\<close> and
  \<^verbatim>\<open>DataFrame.head\<close> belong to the pandas library and are modelled as pandas documents
  them. The plotting calls of lines 107 to 124 draw a figure and have no part in the
  value returned.
\<close>

datatype 'a cell = Num 'a | Txt string

type_synonym 'a row = "(string \<times> 'a cell) list"

record 'a dataframe =
  columns :: "string list"
  rows :: "'a row list"

definition is_num :: "string \<Rightarrow> 'a row \<Rightarrow> bool" where
  "is_num feature r = (case map_of r feature of Some (Num v) \<Rightarrow> True | _ \<Rightarrow> False)"

definition is_txt :: "string \<Rightarrow> 'a row \<Rightarrow> bool" where
  "is_txt feature r = (case map_of r feature of Some (Txt v) \<Rightarrow> True | _ \<Rightarrow> False)"

definition feature_value :: "string \<Rightarrow> ('a::{linorder,zero}) row \<Rightarrow> 'a" where
  "feature_value feature r = (case map_of r feature of Some (Num v) \<Rightarrow> v | _ \<Rightarrow> 0)"

definition feature_text :: "string \<Rightarrow> 'a row \<Rightarrow> string" where
  "feature_text feature r = (case map_of r feature of Some (Txt v) \<Rightarrow> v | _ \<Rightarrow> [])"

definition numeric_column :: "string \<Rightarrow> 'a dataframe \<Rightarrow> bool" where
  "numeric_column feature df = (feature \<in> set (columns df) \<and> list_all (is_num feature) (rows df))"

text \<open>
  \<^verbatim>\<open>df.sort_values(by=feature, ascending=False)\<close>: \<^verbatim>\<open>KeyError\<close> for a name that is not
  a column; a column of numbers is ordered by value, a column of text by code points,
  and a column that mixes them raises \<^verbatim>\<open>TypeError\<close>. pandas orders a descending sort
  by reversing, sorting in ascending order and reversing again. With the default
  sorting kind the order among rows of equal key is not fixed by pandas; the model keeps
  their original order, and nothing proved below depends on it.
\<close>

definition sort_values_desc ::
  "string \<Rightarrow> ('a::{linorder,zero}) dataframe \<Rightarrow> error + 'a dataframe" where
  "sort_values_desc feature df =
     (if feature \<notin> set (columns df) then Inl KeyError
      else if list_all (is_num feature) (rows df)
        then Inr (df\<lparr>rows := rev (sort_key (feature_value feature) (rev (rows df)))\<rparr>)
      else if list_all (is_txt feature) (rows df)
        then Inr (df\<lparr>rows := rev (sort_key (feature_text feature) (rev (rows df)))\<rparr>)
      else Inl TypeError)"

text \<open>
  \<^verbatim>\<open>df.head(n)\<close>: the first \<open>n\<close> rows; for a negative \<open>n\<close>, all rows but the last
  \<open>-n\<close>.
\<close>

definition head :: "int \<Rightarrow> 'a dataframe \<Rightarrow> 'a dataframe" where
  "head n df =
     df\<lparr>rows := (if 0 \<le> n then take (nat n) (rows df)
                 else take (nat (int (length (rows df)) + n)) (rows df))\<rparr>"

text \<open>
  \<^verbatim>\<open>top_ranked_repos(df, feature, n=n)\<close>. Line 113 reads the column \<^verbatim>\<open>repo_name\<close> of
  the result for the plot, which raises \<^verbatim>\<open>KeyError\<close> when the table has no such
  column.
\<close>

definition top_ranked_repos ::
  "('a::{linorder,zero}) dataframe \<Rightarrow> string \<Rightarrow> int \<Rightarrow> error + 'a dataframe" where
  "top_ranked_repos df feature n =
     (case sort_values_desc feature df of
        Inl e \<Rightarrow> Inl e
      | Inr sorted_df \<Rightarrow>
          (let top_repos = head n sorted_df in
           if ''repo_name'' \<in> set (columns top_repos) then Inr top_repos
           else Inl KeyError))"

text \<open>
  Descending order of the feature column, and the words of the specification for the
  rows returned: the first \<open>n\<close> rows, or all rows when there are fewer than \<open>n\<close>.
\<close>

definition descending :: "string \<Rightarrow> ('a::{linorder,zero}) row list \<Rightarrow> bool" where
  "descending feature rs =
     sorted_wrt (\<lambda>a b. feature_value feature b \<le> feature_value feature a) rs"

definition first_n_rows :: "int \<Rightarrow> 'r list \<Rightarrow> 'r list" where
  "first_n_rows n rs = (if int (length rs) < n then rs else take (nat n) rs)"
section \<open>Properties of the text operations\<close>

lemma sub_egypt_match:
  "egypt_here prev s \<Longrightarrow> sub_egypt prev s = sub_egypt (Some CHR ''t'') (drop 5 s)"
  by (cases s) (simp_all add: egypt_here_def)

lemma sub_egypt_step:
  "\<not> egypt_here prev (c # cs) \<Longrightarrow> sub_egypt prev (c # cs) = c # sub_egypt (Some c) cs"
  by simp

declare sub_egypt.simps(2) [simp del]

lemma is_word_char_t: "is_word_char CHR ''t''"
  by (simp add: is_word_char_def is_alnum_def is_letter_def is_ascii_lower_def)

lemma sub_egypt_after_word:
  assumes "is_word_char p" "sub_egypt (Some p) s = []"
  shows "s = []"
proof (cases s)
  case Nil
  then show ?thesis .
next
  case (Cons c cs)
  from assms(1) have "\<not> egypt_here (Some p) (c # cs)"
    by (simp add: egypt_here_def boundary_before_def)
  from sub_egypt_step [OF this] assms(2) Cons show ?thesis by simp
qed

lemma sub_egypt_empty_iff:
  "sub_egypt None s = [] \<longleftrightarrow> s = [] \<or> s = ''egypt''"
proof (cases "egypt_here None s")
  case True
  then have t: "take 5 s = ''egypt''" by (simp add: egypt_here_def)
  then have ne: "s \<noteq> []" by auto
  have "sub_egypt None s = [] \<longleftrightarrow> drop 5 s = []"
  proof
    assume "sub_egypt None s = []"
    then have "sub_egypt (Some CHR ''t'') (drop 5 s) = []"
      by (simp only: sub_egypt_match [OF True])
    then show "drop 5 s = []"
      by (rule sub_egypt_after_word [OF is_word_char_t])
  next
    assume "drop 5 s = []"
    then show "sub_egypt None s = []"
      by (simp only: sub_egypt_match [OF True] sub_egypt.simps(1))
  qed
  moreover have "drop 5 s = [] \<longleftrightarrow> s = ''egypt''"
  proof
    assume "drop 5 s = []"
    with append_take_drop_id [of 5 s] t show "s = ''egypt''" by simp
  next
    assume "s = ''egypt''"
    then show "drop 5 s = []" by simp
  qed
  ultimately show ?thesis using ne by simp
next
  case False
  show ?thesis
  proof (cases s)
    case Nil
    then show ?thesis by simp
  next
    case (Cons c cs)
    with False sub_egypt_step [of None c cs] have "sub_egypt None s \<noteq> []" by simp
    moreover have "s \<noteq> ''egypt''"
      using False by (auto simp: egypt_here_def boundary_before_def boundary_after_def)
    ultimately show ?thesis using Cons by simp
  qed
qed

lemma set_sub_egypt: "set (sub_egypt prev s) \<subseteq> set s"
proof (induction prev s rule: sub_egypt.induct)
  case (1 prev)
  then show ?case by simp
next
  case (2 prev c cs)
  show ?case
  proof (cases "egypt_here prev (c # cs)")
    case True
    with 2 have "set (sub_egypt (Some CHR ''t'') (drop 5 (c # cs))) \<subseteq> set (drop 5 (c # cs))"
      by blast
    also have "\<dots> \<subseteq> set (c # cs)" by (rule set_drop_subset)
    finally show ?thesis by (simp only: sub_egypt_match [OF True])
  next
    case False
    with 2 have "set (sub_egypt (Some c) cs) \<subseteq> set cs" by blast
    then show ?thesis by (auto simp only: sub_egypt_step [OF False] set_simps)
  qed
qed

lemma to_lower_not_upper: "\<not> is_ascii_upper (to_lower c)"
  by (auto simp: to_lower_def is_upper_def is_ascii_upper_def)

lemma set_py_lower: "c \<in> set (py_lower s) \<Longrightarrow> \<not> is_ascii_upper c"
  by (auto simp: py_lower_def to_lower_not_upper)

lemma normalized_not_upper: "c \<in> set (normalized s) \<Longrightarrow> \<not> is_ascii_upper c"
  using set_sub_egypt [of None "py_lower (py_strip s)"] set_py_lower
  by (auto simp: normalized_def exclude_egypt_def)

lemma split_from_nonempty: "w \<in> set (split_from cur s) \<Longrightarrow> w \<noteq> []"
  by (induction cur s rule: split_from.induct) (auto split: if_splits)

lemma split_from_subset:
  "w \<in> set (split_from cur s) \<Longrightarrow> c \<in> set w \<Longrightarrow> c \<in> set cur \<or> c \<in> set s"
  by (induction cur s rule: split_from.induct) (auto split: if_splits)

lemma split_from_no_space:
  "w \<in> set (split_from cur s) \<Longrightarrow> \<forall>c\<in>set cur. \<not> is_space c \<Longrightarrow> c \<in> set w \<Longrightarrow>
     \<not> is_space c"
  by (induction cur s rule: split_from.induct) (auto split: if_splits)

lemma py_split_words:
  assumes "w \<in> set (py_split s)"
  shows "w \<noteq> []" and "set w \<subseteq> set s" and "\<forall>c\<in>set w. \<not> is_space c"
proof -
  from assms have w: "w \<in> set (split_from [] s)" by (simp add: py_split_def)
  from split_from_nonempty [OF w] show "w \<noteq> []" .
  from split_from_subset [OF w] show "set w \<subseteq> set s" by auto
  from split_from_no_space [OF w] show "\<forall>c\<in>set w. \<not> is_space c" by simp
qed

lemma city_words_lower:
  assumes "w \<in> set (city_words s)"
  shows "w \<noteq> [] \<and> (\<forall>c\<in>set w. is_ascii_lower c)"
proof -
  from assms have "w \<in> set (py_split (only_chars (normalized s)))"
    by (simp add: city_words_def)
  from py_split_words [OF this]
  have w: "w \<noteq> []" "set w \<subseteq> set (only_chars (normalized s))" "\<forall>c\<in>set w. \<not> is_space c"
    by simp_all
  have "is_ascii_lower c" if "c \<in> set w" for c
  proof -
    from that w have "c \<in> set (normalized s)" "is_letter c \<or> is_space c" "\<not> is_space c"
      by (auto simp: only_chars_def)
    then show ?thesis using normalized_not_upper [of c s] by (auto simp: is_letter_def)
  qed
  with w show ?thesis by simp
qed

lemma to_lower_lower: "is_ascii_lower c \<Longrightarrow> to_lower c = c"
  by (auto simp: to_lower_def is_ascii_lower_def is_upper_def)

lemma title_char_lower: "is_ascii_lower c \<Longrightarrow> title_char c = [to_upper c]"
  by (auto simp: title_char_def is_ascii_lower_def)

lemma is_cased_lower: "is_ascii_lower c \<Longrightarrow> is_cased c"
  by (simp add: is_cased_def is_letter_def)

lemma is_cased_space: "\<not> is_cased CHR '' ''" "to_lower CHR '' '' = CHR '' ''"
  by (simp_all add: is_cased_def is_letter_def is_ascii_lower_def is_ascii_upper_def
      is_upper_def to_lower_def)

lemma title_from_letters:
  "\<forall>c\<in>set w. is_ascii_lower c \<Longrightarrow>
   title_from True (w @ rest) = w @ title_from True rest"
  by (induction w) (auto simp: to_lower_lower is_cased_lower)

lemma title_from_word:
  assumes "w \<noteq> []" "\<forall>c\<in>set w. is_ascii_lower c"
  shows "title_from False (w @ rest) = title_word w @ title_from True rest"
proof -
  from assms obtain c cs where w: "w = c # cs" by (cases w) auto
  with assms have cs: "\<forall>c\<in>set cs. is_ascii_lower c" and c: "is_ascii_lower c" by auto
  have "map to_lower cs = cs" using cs by (induction cs) (auto simp: to_lower_lower)
  then show ?thesis
    using w c title_from_letters [OF cs, of rest]
    by (simp add: title_word_def is_cased_lower title_char_lower)
qed

lemma title_join:
  "\<forall>w\<in>set ws. w \<noteq> [] \<and> (\<forall>c\<in>set w. is_ascii_lower c) \<Longrightarrow>
   title_from False (py_join '' '' ws) = py_join '' '' (map title_word ws)"
proof (induction "'' ''" ws rule: py_join.induct)
  case 1
  then show ?case by simp
next
  case (2 w)
  then show ?case using title_from_word [of w "[]"] by simp
next
  case (3 w v vs)
  then have "title_from False (w @ '' '' @ py_join '' '' (v # vs))
      = title_word w @ title_from True ('' '' @ py_join '' '' (v # vs))"
    using title_from_word [of w] by simp
  also have "\<dots> = title_word w @ '' '' @ title_from False (py_join '' '' (v # vs))"
    by (simp add: is_cased_space)
  finally show ?case using 3 by simp
qed

lemma extract_city_text:
  "extract_city (PyStr s) =
     (if normalized s = [] then Inr (Some ''Egypt'')
      else if city_words s = [] then Inr None
      else Inr (Some (py_title (py_join '' '' (city_words s)))))"
  by (simp add: extract_city_def method_strip_def normalized_def city_words_def Let_def)

lemma extract_city_not_text: "\<not> isinstance_str x \<Longrightarrow> extract_city x = Inr None"
  by (simp add: extract_city_def)

section \<open>Properties of the language loop\<close>

lemma endswith_suffix: "endswith s suf \<longleftrightarrow> suffix suf s"
proof
  assume "endswith s suf"
  then have "s = take (length s - length suf) s @ suf"
    by (metis append_take_drop_id endswith_def)
  then show "suffix suf s" by (rule suffixI)
next
  assume "suffix suf s"
  then obtain zs where "s = zs @ suf" by (auto simp: suffix_def)
  then show "endswith s suf" by (simp add: endswith_def)
qed

lemma endswith_any_iff:
  "endswith_any name ids \<longleftrightarrow> ends_with_identifier ids (PyStr name)"
  by (simp add: endswith_any_def list_ex_iff endswith_suffix ends_with_identifier_def)

lemma any_file_endswith_step:
  "any_file_endswith (PyStr name # files) ids =
     (if ends_with_identifier ids (PyStr name) then Inr True else any_file_endswith files ids)"
  by (simp add: endswith_any_iff)

lemma any_file_endswith_passes:
  "scan_passes files ids \<Longrightarrow> any_file_endswith files ids = Inr False"
proof (induction files)
  case Nil
  then show ?case by simp
next
  case (Cons f fs)
  then obtain name where n: "f = PyStr name"
    by (cases f) (simp_all add: scan_passes_def)
  from Cons.prems have "\<not> ends_with_identifier ids (PyStr name)" "scan_passes fs ids"
    by (simp_all add: scan_passes_def n)
  with Cons.IH show ?case by (simp only: n any_file_endswith_step) simp
qed

lemma any_file_endswith_False:
  "any_file_endswith files ids = Inr False \<Longrightarrow> scan_passes files ids"
proof (induction files)
  case Nil
  then show ?case by (simp add: scan_passes_def)
next
  case (Cons f fs)
  then obtain name where n: "f = PyStr name"
    by (cases f) simp_all
  from Cons.prems have a: "\<not> ends_with_identifier ids (PyStr name)"
    and b: "any_file_endswith fs ids = Inr False"
    by (simp_all only: n any_file_endswith_step split: if_splits) simp_all
  from Cons.IH [OF b] a show ?case by (simp add: scan_passes_def n)
qed

lemma any_file_endswith_True:
  "any_file_endswith files ids = Inr True \<Longrightarrow> \<exists>file\<in>set files. ends_with_identifier ids file"
proof (induction files)
  case Nil
  then show ?case by simp
next
  case (Cons f fs)
  then obtain name where n: "f = PyStr name"
    by (cases f) simp_all
  show ?case
  proof (cases "ends_with_identifier ids (PyStr name)")
    case True
    then show ?thesis by (simp add: n)
  next
    case False
    with Cons.prems have "any_file_endswith fs ids = Inr True"
      by (simp only: n any_file_endswith_step) simp
    from Cons.IH [OF this] show ?thesis by simp
  qed
qed

lemma any_file_endswith_hit:
  assumes "\<forall>file\<in>set before. isinstance_str file"
    and "ends_with_identifier ids (PyStr name)"
  shows "any_file_endswith (before @ PyStr name # after) ids = Inr True"
  using assms(1)
proof (induction before)
  case Nil
  then show ?case using assms(2) by (simp only: append_Nil any_file_endswith_step) simp
next
  case (Cons f before)
  then obtain n where n: "f = PyStr n" by (cases f) simp_all
  from Cons have "any_file_endswith (before @ PyStr name # after) ids = Inr True" by simp
  then show ?case by (simp only: n append_Cons any_file_endswith_step) simp
qed

lemma any_file_endswith_text:
  "\<forall>file\<in>set files. isinstance_str file \<Longrightarrow>
     any_file_endswith files ids = Inr (\<exists>file\<in>set files. ends_with_identifier ids file)"
proof (induction files)
  case Nil
  then show ?case by simp
next
  case (Cons f fs)
  then obtain n where n: "f = PyStr n" by (cases f) simp_all
  from Cons have "any_file_endswith fs ids = Inr (\<exists>file\<in>set fs. ends_with_identifier ids file)"
    by simp
  then show ?case by (simp only: n any_file_endswith_step) simp
qed

lemma keyword_match_list_ex: "list_ex (\<lambda>word. word \<in> ws) ids = keyword_match ws ids"
  by (simp add: keyword_match_def list_ex_iff)

lemma match_languages_keyword:
  "keyword_match ws ids \<Longrightarrow> match_languages ((lang, ids) # rest) ws files = Inr (Some lang)"
  by (simp add: keyword_match_list_ex)

lemma match_languages_suffix:
  "any_file_endswith files ids = Inr True \<Longrightarrow>
     match_languages ((lang, ids) # rest) ws files = Inr (Some lang)"
  by simp

lemma match_languages_next:
  "passed_over ws files (lang, ids) \<Longrightarrow>
     match_languages ((lang, ids) # rest) ws files = match_languages rest ws files"
  by (simp add: passed_over_def keyword_match_list_ex any_file_endswith_passes)

lemma match_languages_passed:
  "\<forall>entry\<in>set pre. passed_over ws files entry \<Longrightarrow>
     match_languages (pre @ rest) ws files = match_languages rest ws files"
proof (induction pre)
  case Nil
  then show ?case by simp
next
  case (Cons entry pre)
  obtain lang ids where e: "entry = (lang, ids)" by (cases entry)
  from Cons.prems have "passed_over ws files (lang, ids)" by (simp add: e)
  from match_languages_next [OF this] Cons show ?case by (simp add: e)
qed

lemma not_matches_passed:
  "\<forall>file\<in>set files. isinstance_str file \<Longrightarrow> \<not> language_matches ws files entry \<Longrightarrow>
     passed_over ws files entry"
  by (auto simp: language_matches_def passed_over_def scan_passes_def)

lemma passed_not_matches:
  "passed_over ws files entry \<Longrightarrow> \<not> language_matches ws files entry"
  by (auto simp: language_matches_def passed_over_def scan_passes_def)

lemma match_languages_text_step:
  assumes "\<forall>file\<in>set files. isinstance_str file"
  shows "match_languages ((lang, ids) # rest) ws files =
     (if language_matches ws files (lang, ids) then Inr (Some lang)
      else match_languages rest ws files)"
  by (simp add: keyword_match_list_ex any_file_endswith_text [OF assms] language_matches_def)

lemma match_languages_text_find:
  assumes "\<forall>file\<in>set files. isinstance_str file"
  shows "match_languages table ws files =
     Inr (map_option fst (find (language_matches ws files) table))"
proof (induction table)
  case Nil
  then show ?case by simp
next
  case (Cons entry table)
  obtain lang ids where e: "entry = (lang, ids)" by (cases entry)
  show ?case unfolding e using Cons
    by (simp only: match_languages_text_step [OF assms] find.simps) simp
qed

lemma match_languages_Some:
  "match_languages table ws files = Inr (Some lang) \<Longrightarrow>
     \<exists>pre ids post. table = pre @ (lang, ids) # post
       \<and> (\<forall>entry\<in>set pre. passed_over ws files entry)
       \<and> language_matches ws files (lang, ids)"
proof (induction table)
  case Nil
  then show ?case by simp
next
  case (Cons entry table)
  obtain l ids where e: "entry = (l, ids)" by (cases entry)
  show ?case
  proof (cases "keyword_match ws ids")
    case True
    with Cons.prems have "lang = l"
      by (simp add: e keyword_match_list_ex)
    moreover from True have "language_matches ws files (l, ids)"
      by (simp add: language_matches_def)
    ultimately have "(l, ids) # table = [] @ (lang, ids) # table
        \<and> (\<forall>entry\<in>set []. passed_over ws files entry)
        \<and> language_matches ws files (lang, ids)"
      by simp
    then show ?thesis unfolding e by blast
  next
    case nk: False
    show ?thesis
    proof (cases "any_file_endswith files ids")
      case (Inl err)
      with nk Cons.prems show ?thesis by (simp add: e keyword_match_list_ex)
    next
      case (Inr hit)
      show ?thesis
      proof (cases hit)
        case True
        with Inr nk Cons.prems have "lang = l" by (simp add: e keyword_match_list_ex)
        moreover from True Inr have "language_matches ws files (l, ids)"
          using any_file_endswith_True [of files ids] by (simp add: language_matches_def)
        ultimately have "(l, ids) # table = [] @ (lang, ids) # table
            \<and> (\<forall>entry\<in>set []. passed_over ws files entry)
            \<and> language_matches ws files (lang, ids)"
          by simp
        then show ?thesis unfolding e by blast
      next
        case False
        with Inr have p: "passed_over ws files (l, ids)"
          using any_file_endswith_False [of files ids] nk by (simp add: passed_over_def)
        from Cons.prems have "match_languages table ws files = Inr (Some lang)"
          by (simp only: e match_languages_next [OF p])
        from Cons.IH [OF this] obtain pre ids' post where
          t: "table = pre @ (lang, ids') # post"
          and q: "\<forall>entry\<in>set pre. passed_over ws files entry"
          and m: "language_matches ws files (lang, ids')"
          by blast
        from t p q m have "(l, ids) # table = ((l, ids) # pre) @ (lang, ids') # post
            \<and> (\<forall>entry\<in>set ((l, ids) # pre). passed_over ws files entry)
            \<and> language_matches ws files (lang, ids')"
          by simp
        then show ?thesis unfolding e by blast
      qed
    qed
  qed
qed

lemma fields_ok_repo_fields: "repo_fields repo d t files \<Longrightarrow> fields_ok repo"
  by (simp add: repo_fields_def fields_ok_def dict_get_def)

lemma fields_ok_iff: "fields_ok repo \<longleftrightarrow> (\<exists>d t files. repo_fields repo d t files)"
proof
  assume ok: "fields_ok repo"
  then obtain d where d: "dict_get repo ''repo_description'' = PyStr d"
    by (cases "dict_get repo ''repo_description''") (simp_all add: fields_ok_def)
  from ok obtain t where t: "dict_get repo ''topics'' = PyStr t"
    by (cases "dict_get repo ''topics''") (simp_all add: fields_ok_def)
  from ok obtain files where f: "dict_get repo ''filenames'' = PyList files"
    by (cases "dict_get repo ''filenames''") (simp_all add: fields_ok_def)
  from d t f have "repo_fields repo d t files"
    by (auto simp: repo_fields_def dict_get_def split: option.splits)
  then show "\<exists>d t files. repo_fields repo d t files" by blast
next
  assume "\<exists>d t files. repo_fields repo d t files"
  then show "fields_ok repo" using fields_ok_repo_fields by blast
qed

lemma detect_language_loop:
  assumes "repo_fields repo d t files" "config w = Inr table"
  shows "detect_language repo w =
     (match_languages table (text_words d t) files, w\<lparr>opens := Suc (opens w)\<rparr>)"
proof -
  from assms(1) have "dict_get repo ''repo_description'' = PyStr d"
    "dict_get repo ''topics'' = PyStr t"
    "dict_get repo ''filenames'' = PyList files"
    by (simp_all add: repo_fields_def dict_get_def)
  then show ?thesis
    using fields_ok_repo_fields [OF assms(1)] assms(2)
    by (simp add: detect_language_def load_keywords_def)
qed

lemma repo_fields_repo_of: "repo_fields (repo_of d t names) d t (map PyStr names)"
  by (simp add: repo_fields_def repo_of_def)

lemma find_skip:
  "\<forall>x\<in>set pre. \<not> P x \<Longrightarrow> find P (pre @ rest) = find P rest"
  by (induction pre) simp_all

lemma detect_language_unchecked:
  "\<not> fields_ok repo \<Longrightarrow> detect_language repo w = (Inr None, w)"
  by (simp add: detect_language_def)

lemma fields_ok_missing:
  "repo ''repo_description'' = None \<or> repo ''topics'' = None \<or> repo ''filenames'' = None
     \<Longrightarrow> \<not> fields_ok repo"
  by (auto simp: fields_ok_def dict_get_def)

lemma detect_language_load_error:
  "fields_ok repo \<Longrightarrow> config w = Inl e \<Longrightarrow>
     detect_language repo w = (Inl e, w\<lparr>opens := Suc (opens w)\<rparr>)"
  by (simp add: detect_language_def load_keywords_def)

section \<open>Properties of sorting and splitting\<close>

lemma descending_sort:
  "descending feature (rev (sort_key (feature_value feature) xs))"
proof -
  have "sorted (map (feature_value feature) (sort_key (feature_value feature) xs))"
    by (rule sorted_sort_key)
  then have "sorted_wrt (\<lambda>a b. feature_value feature a \<le> feature_value feature b)
      (sort_key (feature_value feature) xs)"
    by (simp add: sorted_map)
  then show ?thesis by (simp add: descending_def sorted_wrt_rev)
qed

lemma mset_sort_desc:
  "mset (rev (sort_key f (rev xs))) = mset xs"
  by simp

lemma descending_take: "descending feature xs \<Longrightarrow> descending feature (take k xs)"
  by (simp add: descending_def sorted_wrt_take)

lemma first_n_rows_take: "0 \<le> n \<Longrightarrow> first_n_rows n rs = take (nat n) rs"
  by (simp add: first_n_rows_def)

lemma top_ranked_repos_rows:
  assumes "numeric_column feature df" "''repo_name'' \<in> set (columns df)"
  shows "top_ranked_repos df feature n =
     Inr (head n (df\<lparr>rows := rev (sort_key (feature_value feature) (rev (rows df)))\<rparr>))"
  using assms
  by (simp add: top_ranked_repos_def sort_values_desc_def head_def numeric_column_def)

lemma split_on_not_Nil: "split_on sep s \<noteq> []"
  by (induction s) (auto split: list.splits)

lemma split_on_append:
  "split_on sep (a @ sep # b) = split_on sep a @ split_on sep b"
proof (induction a)
  case Nil
  then show ?case by simp
next
  case (Cons c a)
  obtain w ws where "split_on sep a = w # ws"
    using split_on_not_Nil [of sep a] by (cases "split_on sep a") auto
  with Cons show ?case by simp
qed

lemma hd_split_on: "hd (split_on sep s) = takeWhile (\<lambda>c. c \<noteq> sep) s"
  by (induction s) (auto split: list.splits simp: split_on_not_Nil)

lemma join_split_on: "py_join [sep] (split_on sep s) = s"
proof (induction s)
  case Nil
  then show ?case by simp
next
  case (Cons c s)
  obtain w ws where ws: "split_on sep s = w # ws"
    using split_on_not_Nil [of sep s] by (cases "split_on sep s") auto
  show ?case
  proof (cases "c = sep")
    case True
    with Cons ws show ?thesis by simp
  next
    case False
    with Cons ws show ?thesis by (cases ws) auto
  qed
qed

lemma to_lower_comma_space: "to_lower CHR '','' = CHR '',''" "to_lower CHR '' '' = CHR '' ''"
  by (simp_all add: to_lower_def is_upper_def)

section \<open>The claims\<close>

subsection \<open>extract_city\<close>

text \<open>
  Claim C5. For every text whose trimmed, lowercased form with the word \<^verbatim>\<open>egypt\<close>
  removed is empty, \<open>extract_city\<close> returns the string \<^verbatim>\<open>Egypt\<close>. These are the texts
  whose trimmed, lowercased form is empty or is \<^verbatim>\<open>egypt\<close>.
\<close>
theorem extract_city_country_only:
  "(normalized s = [] \<longrightarrow> extract_city (PyStr s) = Inr (Some ''Egypt''))
   \<and> (normalized s = [] \<longleftrightarrow> py_lower (py_strip s) = [] \<or> py_lower (py_strip s) = ''egypt'')"
proof
  show "normalized s = [] \<longrightarrow> extract_city (PyStr s) = Inr (Some ''Egypt'')"
    by (simp add: extract_city_text)
  show "normalized s = [] \<longleftrightarrow> py_lower (py_strip s) = [] \<or> py_lower (py_strip s) = ''egypt''"
    unfolding normalized_def exclude_egypt_def by (rule sub_egypt_empty_iff)
qed

theorem extract_city_country_only_witness:
  "normalized ''Egypt'' = [] \<and> extract_city (PyStr ''Egypt'') = Inr (Some ''Egypt'')
   \<and> normalized ''  EGYPT  '' = [] \<and> extract_city (PyStr ''  EGYPT  '') = Inr (Some ''Egypt'')
   \<and> normalized [CHR 0xA0] = [] \<and> extract_city (PyStr [CHR 0xA0]) = Inr (Some ''Egypt'')
   \<and> normalized (CHR 0x85 # ''Egypt'') = []
   \<and> extract_city (PyStr (CHR 0x85 # ''Egypt'')) = Inr (Some ''Egypt'')"
proof -
  have a: "normalized ''Egypt'' = []" by code_simp
  have b: "normalized ''  EGYPT  '' = []" by code_simp
  have c: "normalized [CHR 0xA0] = []" by code_simp
  have d: "normalized (CHR 0x85 # ''Egypt'') = []" by code_simp
  from a b c d
    extract_city_country_only [of "''Egypt''"] extract_city_country_only [of "''  EGYPT  ''"]
    extract_city_country_only [of "[CHR 0xA0]"]
    extract_city_country_only [of "CHR 0x85 # ''Egypt''"]
  show ?thesis by blast
qed

text \<open>
  Claim C6. For every text whose trimmed, lowercased form with the country word removed
  is not empty, \<open>extract_city\<close> keeps only letters and whitespace; the words that remain
  are non-empty runs of the letters \<^verbatim>\<open>a\<close> to \<^verbatim>\<open>z\<close>; with at least one word the
  result is the words title-cased and joined by single spaces, and with no word it is
  \<^verbatim>\<open>None\<close>, not the string \<^verbatim>\<open>Egypt\<close>.
\<close>
theorem extract_city_words:
  assumes "normalized s \<noteq> []"
  shows "extract_city (PyStr s) =
           (if city_words s = [] then Inr None
            else Inr (Some (py_join '' '' (map title_word (city_words s)))))
         \<and> (\<forall>w\<in>set (city_words s). w \<noteq> [] \<and> (\<forall>c\<in>set w. is_ascii_lower c))
         \<and> (\<forall>c\<in>set (only_chars (normalized s)). is_letter c \<or> is_space c)"
proof (intro conjI)
  have "title_from False (py_join '' '' (city_words s)) =
      py_join '' '' (map title_word (city_words s))"
    using city_words_lower [of _ s] by (intro title_join) blast
  then show "extract_city (PyStr s) =
           (if city_words s = [] then Inr None
            else Inr (Some (py_join '' '' (map title_word (city_words s)))))"
    using assms by (simp add: extract_city_text py_title_def)
  show "\<forall>w\<in>set (city_words s). w \<noteq> [] \<and> (\<forall>c\<in>set w. is_ascii_lower c)"
    using city_words_lower [of _ s] by blast
  show "\<forall>c\<in>set (only_chars (normalized s)). is_letter c \<or> is_space c"
    by (simp add: only_chars_def)
qed

theorem extract_city_words_witness:
  "normalized ''Cairo, Egypt'' \<noteq> []
   \<and> extract_city (PyStr ''Cairo, Egypt'') = Inr (Some ''Cairo'')
   \<and> normalized ''!!!'' \<noteq> [] \<and> extract_city (PyStr ''!!!'') = Inr None
   \<and> normalized (''new'' @ CHR 0xA0 # ''cairo,  EGYPT'') \<noteq> []
   \<and> extract_city (PyStr (''new'' @ CHR 0xA0 # ''cairo,  EGYPT'')) = Inr (Some ''New Cairo'')
   \<and> normalized (''egypt'' @ [CHR 0xE9]) \<noteq> []
   \<and> extract_city (PyStr (''egypt'' @ [CHR 0xE9])) = Inr (Some ''Egypt'')"
proof -
  let ?nc = "''new'' @ CHR 0xA0 # ''cairo,  EGYPT''"
  let ?ee = "''egypt'' @ [CHR 0xE9]"
  have a: "normalized ''Cairo, Egypt'' \<noteq> []" by code_simp
  have a1: "city_words ''Cairo, Egypt'' = [''cairo'']" by code_simp
  have a2: "py_join '' '' (map title_word [''cairo'']) = ''Cairo''" by code_simp
  have b: "normalized ''!!!'' \<noteq> []" by code_simp
  have b1: "city_words ''!!!'' = []" by code_simp
  have c: "normalized ?nc \<noteq> []" by code_simp
  have c1: "city_words ?nc = [''new'', ''cairo'']" by code_simp
  have c2: "py_join '' '' (map title_word [''new'', ''cairo'']) = ''New Cairo''" by code_simp
  have d: "normalized ?ee \<noteq> []" by code_simp
  have d1: "city_words ?ee = [''egypt'']" by code_simp
  have d2: "py_join '' '' (map title_word [''egypt'']) = ''Egypt''" by code_simp
  from extract_city_words [OF a]
  have ra: "extract_city (PyStr ''Cairo, Egypt'') = Inr (Some ''Cairo'')"
    by (simp only: a1 a2) simp
  from extract_city_words [OF b] have rb: "extract_city (PyStr ''!!!'') = Inr None"
    by (simp only: b1) simp
  from extract_city_words [OF c] have rc: "extract_city (PyStr ?nc) = Inr (Some ''New Cairo'')"
    by (simp only: c1 c2) simp
  from extract_city_words [OF d] have rd: "extract_city (PyStr ?ee) = Inr (Some ''Egypt'')"
    by (simp only: d1 d2) simp
  from a ra b rb c rc d rd show ?thesis by (intro conjI)
qed

text \<open>
  Claim C7. \<open>extract_city\<close> returns for every value and raises for none: the result is
  never an exception, although \<^verbatim>\<open>strip\<close> raises \<^verbatim>\<open>AttributeError\<close> on every value that
  is not text, because the check of line 136 comes before the call; and for every
  value that is not text the result is \<^verbatim>\<open>None\<close>. That the scan for the country word
  ends on every text is the termination proof of \<open>sub_egypt\<close>.
\<close>
theorem extract_city_total:
  "(\<exists>result. extract_city x = Inr result)
   \<and> (\<not> isinstance_str x \<longrightarrow> extract_city x = Inr None)"
proof
  show "\<exists>result. extract_city x = Inr result"
  proof (cases "isinstance_str x")
    case True
    then obtain s where "x = PyStr s" by (cases x) simp_all
    then show ?thesis by (simp add: extract_city_text)
  next
    case False
    then show ?thesis by (simp add: extract_city_not_text)
  qed
  show "\<not> isinstance_str x \<longrightarrow> extract_city x = Inr None"
    by (simp add: extract_city_not_text)
qed

theorem extract_city_total_witness:
  "\<not> isinstance_str (PyInt 7) \<and> extract_city (PyInt 7) = Inr None
   \<and> \<not> isinstance_str PyNone \<and> extract_city PyNone = Inr None
   \<and> \<not> isinstance_str (PyList [PyStr ''Cairo''])
   \<and> extract_city (PyList [PyStr ''Cairo'']) = Inr None
   \<and> method_strip (PyInt 7) = Inl AttributeError"
proof -
  have "method_strip (PyInt 7) = Inl AttributeError" by (simp add: method_strip_def)
  with extract_city_total [of "PyInt 7"] extract_city_total [of PyNone]
    extract_city_total [of "PyList [PyStr ''Cairo'']"]
  show ?thesis by simp
qed

subsection \<open>detect_language\<close>

text \<open>
  Claim C1 as it is written fails on two kinds of record. With the table of Python
  before Go, the description \<^verbatim>\<open>golang\<close> and the filename \<^verbatim>\<open>x.py\<close>, the first language
  with an identifier in the candidate word set is Go, and the function returns Python,
  because the filenames are tried for Python before the keywords of Go are. With the
  same table and the filename list \<^verbatim>\<open>[3]\<close>, the function raises \<^verbatim>\<open>AttributeError\<close>
  where the claim has it return Go (description \<^verbatim>\<open>golang\<close>) or \<^verbatim>\<open>None\<close> (description
  \<^verbatim>\<open>a tool\<close>, no keyword and no suffix match).
\<close>
theorem detect_language_keyword_counterexample:
  "first_keyword_language [(''Python'', [''python'', ''.py'']), (''Go'', [''golang'', ''.go''])]
       (text_words ''golang'' '''') = Some ''Go''
   \<and> fst (detect_language (repo_of ''golang'' '''' [''x.py''])
         \<lparr>config = Inr [(''Python'', [''python'', ''.py'']), (''Go'', [''golang'', ''.go''])],
          opens = 0\<rparr>) = Inr (Some ''Python'')
   \<and> fst (detect_language
          [''repo_description'' \<mapsto> PyStr ''golang'', ''topics'' \<mapsto> PyStr '''',
           ''filenames'' \<mapsto> PyList [PyInt 3]]
         \<lparr>config = Inr [(''Python'', [''python'', ''.py'']), (''Go'', [''golang'', ''.go''])],
          opens = 0\<rparr>) = Inl AttributeError
   \<and> first_keyword_language [(''Python'', [''python'', ''.py'']), (''Go'', [''golang'', ''.go''])]
       (text_words ''a tool'' '''') = None
   \<and> fst (detect_language
          [''repo_description'' \<mapsto> PyStr ''a tool'', ''topics'' \<mapsto> PyStr '''',
           ''filenames'' \<mapsto> PyList [PyInt 3]]
         \<lparr>config = Inr [(''Python'', [''python'', ''.py'']), (''Go'', [''golang'', ''.go''])],
          opens = 0\<rparr>) = Inl AttributeError"
proof (intro conjI)
  show "first_keyword_language [(''Python'', [''python'', ''.py'']), (''Go'', [''golang'', ''.go''])]
       (text_words ''golang'' '''') = Some ''Go''"
    by code_simp
  show "fst (detect_language (repo_of ''golang'' '''' [''x.py''])
         \<lparr>config = Inr [(''Python'', [''python'', ''.py'']), (''Go'', [''golang'', ''.go''])],
          opens = 0\<rparr>) = Inr (Some ''Python'')"
    by code_simp
  show "fst (detect_language
          [''repo_description'' \<mapsto> PyStr ''golang'', ''topics'' \<mapsto> PyStr '''',
           ''filenames'' \<mapsto> PyList [PyInt 3]]
         \<lparr>config = Inr [(''Python'', [''python'', ''.py'']), (''Go'', [''golang'', ''.go''])],
          opens = 0\<rparr>) = Inl AttributeError"
    by code_simp
  show "first_keyword_language [(''Python'', [''python'', ''.py'']), (''Go'', [''golang'', ''.go''])]
       (text_words ''a tool'' '''') = None"
    by code_simp
  show "fst (detect_language
          [''repo_description'' \<mapsto> PyStr ''a tool'', ''topics'' \<mapsto> PyStr '''',
           ''filenames'' \<mapsto> PyList [PyInt 3]]
         \<lparr>config = Inr [(''Python'', [''python'', ''.py'']), (''Go'', [''golang'', ''.go''])],
          opens = 0\<rparr>) = Inl AttributeError"
    by code_simp
qed

text \<open>
  Claim C1, amended. For every record with text description, text topics and a
  filename list, and every keyword table: when the loop passes over every language of
  a prefix \<open>pre\<close> of the table (none of its identifiers is in the candidate word set,
  every element of the filename list is text and none ends with one of its
  identifiers) and the next language has an identifier in the candidate word set,
  \<open>detect_language\<close> returns that language, which is then the first language with an
  identifier in the candidate word set; and when the loop passes over every language of
  the table, it returns \<^verbatim>\<open>None\<close>. The instance with the description
  \<^verbatim>\<open>a python tool\<close> returns Python.
\<close>
theorem detect_language_first_keyword:
  assumes "repo_fields repo d t files" and "config w = Inr table"
    and "\<forall>entry\<in>set pre. passed_over (text_words d t) files entry"
  shows "(table = pre @ (lang, ids) # post \<and> keyword_match (text_words d t) ids
            \<longrightarrow> fst (detect_language repo w) = Inr (Some lang))
         \<and> (table = pre \<longrightarrow> fst (detect_language repo w) = Inr None)"
proof (intro conjI impI)
  assume a: "table = pre @ (lang, ids) # post \<and> keyword_match (text_words d t) ids"
  then have "match_languages table (text_words d t) files
      = match_languages ((lang, ids) # post) (text_words d t) files"
    using match_languages_passed [OF assms(3)] by simp
  also have "\<dots> = Inr (Some lang)"
    using a by (simp only: match_languages_keyword)
  finally show "fst (detect_language repo w) = Inr (Some lang)"
    by (simp add: detect_language_loop [OF assms(1,2)])
next
  assume "table = pre"
  then have "match_languages table (text_words d t) files
      = match_languages [] (text_words d t) files"
    using match_languages_passed [OF assms(3), of "[]"] by simp
  then show "fst (detect_language repo w) = Inr None"
    by (simp add: detect_language_loop [OF assms(1,2)])
qed

theorem detect_language_first_keyword_witness:
  "fst (detect_language (repo_of ''a python tool'' '''' [])
         \<lparr>config = Inr [(''Python'', [''python'', ''.py'']), (''Go'', [''golang'', ''.go''])],
          opens = 0\<rparr>) = Inr (Some ''Python'')
   \<and> fst (detect_language
          [''repo_description'' \<mapsto> PyStr ''a golang tool'', ''topics'' \<mapsto> PyStr ''cli'',
           ''filenames'' \<mapsto> PyList [PyStr ''main.c'']]
         \<lparr>config = Inr [(''Python'', [''python'', ''.py'']), (''Go'', [''golang'', ''.go''])],
          opens = 0\<rparr>) = Inr (Some ''Go'')
   \<and> fst (detect_language (repo_of ''a rust tool'' ''cli'' [''main.rs''])
         \<lparr>config = Inr [(''Python'', [''python'', ''.py'']), (''Go'', [''golang'', ''.go''])],
          opens = 0\<rparr>) = Inr None"
proof -
  let ?py = "(''Python'', [''python'', ''.py''])"
  let ?go = "(''Go'', [''golang'', ''.go''])"
  let ?table = "[?py, ?go]"
  let ?w = "\<lparr>config = Inr ?table, opens = 0\<rparr>"
  let ?r2 = "[''repo_description'' \<mapsto> PyStr ''a golang tool'', ''topics'' \<mapsto> PyStr ''cli'',
           ''filenames'' \<mapsto> PyList [PyStr ''main.c'']]"
  have c: "config ?w = Inr ?table" by simp
  have f1: "repo_fields (repo_of ''a python tool'' '''' []) ''a python tool'' '''' []"
    by (simp add: repo_fields_def repo_of_def)
  have n1: "\<forall>entry\<in>set []. passed_over (text_words ''a python tool'' '''') [] entry"
    by simp
  have k1: "keyword_match (text_words ''a python tool'' '''') [''python'', ''.py'']"
    by code_simp
  have f2: "repo_fields ?r2 ''a golang tool'' ''cli'' [PyStr ''main.c'']"
    by (simp add: repo_fields_def)
  have n2: "\<forall>entry\<in>set [?py]. passed_over (text_words ''a golang tool'' ''cli'') [PyStr ''main.c''] entry"
    by code_simp
  have k2: "keyword_match (text_words ''a golang tool'' ''cli'') [''golang'', ''.go'']"
    by code_simp
  have f3: "repo_fields (repo_of ''a rust tool'' ''cli'' [''main.rs''])
      ''a rust tool'' ''cli'' [PyStr ''main.rs'']"
    by (simp add: repo_fields_def repo_of_def)
  have n3: "\<forall>entry\<in>set ?table.
      passed_over (text_words ''a rust tool'' ''cli'') [PyStr ''main.rs''] entry"
    by code_simp
  from detect_language_first_keyword [OF f1 c n1, of "''Python''" "[''python'', ''.py'']" "[?go]"] k1
  have r1: "fst (detect_language (repo_of ''a python tool'' '''' []) ?w) = Inr (Some ''Python'')"
    by simp
  from detect_language_first_keyword [OF f2 c n2, of "''Go''" "[''golang'', ''.go'']" "[]"] k2
  have r2: "fst (detect_language ?r2 ?w) = Inr (Some ''Go'')"
    by simp
  from detect_language_first_keyword [OF f3 c n3]
  have r3: "fst (detect_language (repo_of ''a rust tool'' ''cli'' [''main.rs'']) ?w) = Inr None"
    by simp
  from r1 r2 r3 show ?thesis by (intro conjI)
qed

text \<open>
  Claim C2 as it is written fails on a record whose filename list has an element that
  is not text before the filename that matches: with the table of Go alone and the
  filename list \<^verbatim>\<open>[3, "main.go"]\<close> the record passes the field checks, no keyword of Go
  is in the candidate word set and \<^verbatim>\<open>main.go\<close> ends with \<^verbatim>\<open>.go\<close>, and the function
  raises \<^verbatim>\<open>AttributeError\<close> on the first element.
\<close>
theorem detect_language_suffix_counterexample:
  "fields_ok [''repo_description'' \<mapsto> PyStr '''', ''topics'' \<mapsto> PyStr '''',
              ''filenames'' \<mapsto> PyList [PyInt 3, PyStr ''main.go'']]
   \<and> \<not> keyword_match (text_words '''' '''') [''golang'', ''.go'']
   \<and> ends_with_identifier [''golang'', ''.go''] (PyStr ''main.go'')
   \<and> fst (detect_language
          [''repo_description'' \<mapsto> PyStr '''', ''topics'' \<mapsto> PyStr '''',
           ''filenames'' \<mapsto> PyList [PyInt 3, PyStr ''main.go'']]
         \<lparr>config = Inr [(''Go'', [''golang'', ''.go''])], opens = 0\<rparr>) = Inl AttributeError"
proof (intro conjI)
  show "fields_ok [''repo_description'' \<mapsto> PyStr '''', ''topics'' \<mapsto> PyStr '''',
              ''filenames'' \<mapsto> PyList [PyInt 3, PyStr ''main.go'']]"
    by (simp add: fields_ok_def dict_get_def)
  show "\<not> keyword_match (text_words '''' '''') [''golang'', ''.go'']"
    by code_simp
  show "ends_with_identifier [''golang'', ''.go''] (PyStr ''main.go'')"
    by code_simp
  show "fst (detect_language
          [''repo_description'' \<mapsto> PyStr '''', ''topics'' \<mapsto> PyStr '''',
           ''filenames'' \<mapsto> PyList [PyInt 3, PyStr ''main.go'']]
         \<lparr>config = Inr [(''Go'', [''golang'', ''.go''])], opens = 0\<rparr>) = Inl AttributeError"
    by code_simp
qed

text \<open>
  Claim C2, amended. For every record passing the field checks: when the loop reaches a
  language (it passes over every language before it in the table), none of its
  identifiers is in the candidate word set, some filename of the list ends with one of
  its identifiers, and the elements of the list before that filename are text,
  \<open>detect_language\<close> returns that language. The instance with the filename
  \<^verbatim>\<open>main.go\<close> returns Go.
\<close>
theorem detect_language_suffix:
  assumes "repo_fields repo d t files" and "config w = Inr table"
    and "table = pre @ (lang, ids) # post"
    and "\<forall>entry\<in>set pre. passed_over (text_words d t) files entry"
    and "\<not> keyword_match (text_words d t) ids"
    and "files = before @ PyStr name # after"
    and "\<forall>file\<in>set before. isinstance_str file"
    and "ends_with_identifier ids (PyStr name)"
  shows "fst (detect_language repo w) = Inr (Some lang)"
proof -
  have "any_file_endswith files ids = Inr True"
    unfolding assms(6) by (rule any_file_endswith_hit [OF assms(7,8)])
  then have "match_languages ((lang, ids) # post) (text_words d t) files = Inr (Some lang)"
    by (rule match_languages_suffix)
  then have "match_languages table (text_words d t) files = Inr (Some lang)"
    unfolding assms(3) by (simp only: match_languages_passed [OF assms(4)])
  then show ?thesis
    by (simp add: detect_language_loop [OF assms(1,2)])
qed

theorem detect_language_suffix_witness:
  "fst (detect_language (repo_of '''' '''' [''main.go''])
         \<lparr>config = Inr [(''Python'', [''python'', ''.py'']), (''Go'', [''golang'', ''.go''])],
          opens = 0\<rparr>) = Inr (Some ''Go'')
   \<and> fst (detect_language
          [''repo_description'' \<mapsto> PyStr '''', ''topics'' \<mapsto> PyStr '''',
           ''filenames'' \<mapsto> PyList [PyStr ''README'', PyStr ''main.go'', PyInt 3]]
         \<lparr>config = Inr [(''Go'', [''golang'', ''.go''])], opens = 0\<rparr>) = Inr (Some ''Go'')"
proof -
  let ?py = "(''Python'', [''python'', ''.py''])"
  let ?go = "(''Go'', [''golang'', ''.go''])"
  let ?w = "\<lparr>config = Inr [?py, ?go], opens = 0\<rparr>"
  let ?w2 = "\<lparr>config = Inr [?go], opens = 0\<rparr>"
  let ?r2 = "[''repo_description'' \<mapsto> PyStr '''', ''topics'' \<mapsto> PyStr '''',
           ''filenames'' \<mapsto> PyList [PyStr ''README'', PyStr ''main.go'', PyInt 3]]"
  have c: "config ?w = Inr [?py, ?go]" by simp
  have f: "repo_fields (repo_of '''' '''' [''main.go'']) '''' '''' [PyStr ''main.go'']"
    by (simp add: repo_fields_def repo_of_def)
  have t: "[?py, ?go] = [?py] @ ?go # []" by simp
  have n: "\<forall>entry\<in>set [?py]. passed_over (text_words '''' '''') [PyStr ''main.go''] entry"
    by code_simp
  have k: "\<not> keyword_match (text_words '''' '''') [''golang'', ''.go'']"
    by code_simp
  have l: "[PyStr ''main.go''] = [] @ PyStr ''main.go'' # []" by simp
  have b: "\<forall>file\<in>set []. isinstance_str file" by simp
  have s: "ends_with_identifier [''golang'', ''.go''] (PyStr ''main.go'')"
    by code_simp
  have r1: "fst (detect_language (repo_of '''' '''' [''main.go'']) ?w) = Inr (Some ''Go'')"
    by (rule detect_language_suffix [OF f c t n k l b s])
  have c2: "config ?w2 = Inr [?go]" by simp
  have f2: "repo_fields ?r2 '''' '''' [PyStr ''README'', PyStr ''main.go'', PyInt 3]"
    by (simp add: repo_fields_def)
  have t2: "[?go] = [] @ ?go # []" by simp
  have n2: "\<forall>entry\<in>set []. passed_over (text_words '''' '''')
      [PyStr ''README'', PyStr ''main.go'', PyInt 3] entry"
    by simp
  have l2: "[PyStr ''README'', PyStr ''main.go'', PyInt 3]
      = [PyStr ''README''] @ PyStr ''main.go'' # [PyInt 3]" by simp
  have b2: "\<forall>file\<in>set [PyStr ''README'']. isinstance_str file" by simp
  have r2: "fst (detect_language ?r2 ?w2) = Inr (Some ''Go'')"
    by (rule detect_language_suffix [OF f2 c2 t2 n2 k l2 b2 s])
  from r1 r2 show ?thesis by (intro conjI)
qed

text \<open>
  Claim C3 as it is written fails on a record that matches two languages and has a
  filename element that is not text: with the table of Rust, Python and Go, the
  description \<^verbatim>\<open>python golang\<close> and the filename list \<^verbatim>\<open>[3]\<close>, the record matches
  identifiers of Python and of Go, and the function raises \<^verbatim>\<open>AttributeError\<close> in the
  filename scan for Rust and returns no language.
\<close>
theorem detect_language_first_match_counterexample:
  "fields_ok [''repo_description'' \<mapsto> PyStr ''python golang'', ''topics'' \<mapsto> PyStr '''',
              ''filenames'' \<mapsto> PyList [PyInt 3]]
   \<and> keyword_match (text_words ''python golang'' '''') [''python'', ''.py'']
   \<and> keyword_match (text_words ''python golang'' '''') [''golang'', ''.go'']
   \<and> fst (detect_language
          [''repo_description'' \<mapsto> PyStr ''python golang'', ''topics'' \<mapsto> PyStr '''',
           ''filenames'' \<mapsto> PyList [PyInt 3]]
         \<lparr>config = Inr [(''Rust'', [''rust'', ''.rs'']), (''Python'', [''python'', ''.py'']),
                         (''Go'', [''golang'', ''.go''])],
          opens = 0\<rparr>) = Inl AttributeError"
proof (intro conjI)
  show "fields_ok [''repo_description'' \<mapsto> PyStr ''python golang'', ''topics'' \<mapsto> PyStr '''',
              ''filenames'' \<mapsto> PyList [PyInt 3]]"
    by (simp add: fields_ok_def dict_get_def)
  show "keyword_match (text_words ''python golang'' '''') [''python'', ''.py'']"
    by code_simp
  show "keyword_match (text_words ''python golang'' '''') [''golang'', ''.go'']"
    by code_simp
  show "fst (detect_language
          [''repo_description'' \<mapsto> PyStr ''python golang'', ''topics'' \<mapsto> PyStr '''',
           ''filenames'' \<mapsto> PyList [PyInt 3]]
         \<lparr>config = Inr [(''Rust'', [''rust'', ''.rs'']), (''Python'', [''python'', ''.py'']),
                         (''Go'', [''golang'', ''.go''])],
          opens = 0\<rparr>) = Inl AttributeError"
    by code_simp
qed

text \<open>
  Claim C3, amended. For every keyword table and every record passing the field checks:
  whenever \<open>detect_language\<close> returns a language, it is the first language of the table,
  in table order, that matches by keyword or by suffix; when every element of the
  filename list is text it returns that first match, or \<^verbatim>\<open>None\<close> when there is
  none, so a record that matches two languages gets the one that comes first; and the
  outcome, a result or an exception, depends on the description and the topics only
  through the candidate word set, so records with equal candidate word sets and equal
  filename lists get equal outcomes from the same table.
\<close>
theorem detect_language_first_match:
  assumes "repo_fields repo d t files" and "config w = Inr table"
  shows "(fst (detect_language repo w) = Inr (Some lang) \<longrightarrow>
            (\<exists>pre ids post. table = pre @ (lang, ids) # post
               \<and> (\<forall>entry\<in>set pre. \<not> language_matches (text_words d t) files entry)
               \<and> language_matches (text_words d t) files (lang, ids)))
         \<and> ((\<forall>file\<in>set files. isinstance_str file) \<longrightarrow>
              fst (detect_language repo w) =
                Inr (map_option fst (find (language_matches (text_words d t) files) table)))
         \<and> ((\<forall>file\<in>set files. isinstance_str file)
              \<and> table = front @ first # rest
              \<and> (\<forall>entry\<in>set front. \<not> language_matches (text_words d t) files entry)
              \<and> language_matches (text_words d t) files first
              \<and> other \<in> set rest \<and> language_matches (text_words d t) files other
            \<longrightarrow> fst (detect_language repo w) = Inr (Some (fst first)))
         \<and> (repo_fields repo' d' t' files \<and> text_words d' t' = text_words d t
            \<longrightarrow> detect_language repo' w = detect_language repo w)"
proof (intro conjI impI)
  assume "fst (detect_language repo w) = Inr (Some lang)"
  then have "match_languages table (text_words d t) files = Inr (Some lang)"
    by (simp add: detect_language_loop [OF assms])
  from match_languages_Some [OF this] obtain pre ids post where
    t: "table = pre @ (lang, ids) # post"
    and p: "\<forall>entry\<in>set pre. passed_over (text_words d t) files entry"
    and m: "language_matches (text_words d t) files (lang, ids)"
    by blast
  from p have "\<forall>entry\<in>set pre. \<not> language_matches (text_words d t) files entry"
    using passed_not_matches by blast
  with t m show "\<exists>pre ids post. table = pre @ (lang, ids) # post
      \<and> (\<forall>entry\<in>set pre. \<not> language_matches (text_words d t) files entry)
      \<and> language_matches (text_words d t) files (lang, ids)"
    by blast
next
  assume a: "\<forall>file\<in>set files. isinstance_str file"
  show "fst (detect_language repo w) =
      Inr (map_option fst (find (language_matches (text_words d t) files) table))"
    by (simp add: detect_language_loop [OF assms] match_languages_text_find [OF a])
next
  assume a: "(\<forall>file\<in>set files. isinstance_str file)
      \<and> table = front @ first # rest
      \<and> (\<forall>entry\<in>set front. \<not> language_matches (text_words d t) files entry)
      \<and> language_matches (text_words d t) files first
      \<and> other \<in> set rest \<and> language_matches (text_words d t) files other"
  then have alltext: "\<forall>file\<in>set files. isinstance_str file" by simp
  from a have "find (language_matches (text_words d t) files) table = Some first"
    by (simp add: find_skip)
  then show "fst (detect_language repo w) = Inr (Some (fst first))"
    by (simp add: detect_language_loop [OF assms] match_languages_text_find [OF alltext])
next
  assume b: "repo_fields repo' d' t' files \<and> text_words d' t' = text_words d t"
  then have "repo_fields repo' d' t' files" by simp
  from detect_language_loop [OF this assms(2)] detect_language_loop [OF assms] b
  show "detect_language repo' w = detect_language repo w" by simp
qed

theorem detect_language_first_match_witness:
  "fst (detect_language (repo_of ''golang and python'' ''web'' [''app.py'', ''main.go''])
         \<lparr>config = Inr [(''Rust'', [''rust'', ''.rs'']), (''Python'', [''python'', ''.py'']),
                         (''Go'', [''golang'', ''.go''])],
          opens = 0\<rparr>) = Inr (Some ''Python'')
   \<and> text_words ''Python   and GOLANG'' ''web'' = text_words ''golang and python'' ''web''
   \<and> detect_language (repo_of ''Python   and GOLANG'' ''web'' [''app.py'', ''main.go''])
         \<lparr>config = Inr [(''Rust'', [''rust'', ''.rs'']), (''Python'', [''python'', ''.py'']),
                         (''Go'', [''golang'', ''.go''])],
          opens = 0\<rparr>
     = detect_language (repo_of ''golang and python'' ''web'' [''app.py'', ''main.go''])
         \<lparr>config = Inr [(''Rust'', [''rust'', ''.rs'']), (''Python'', [''python'', ''.py'']),
                         (''Go'', [''golang'', ''.go''])],
          opens = 0\<rparr>"
proof -
  let ?rs = "(''Rust'', [''rust'', ''.rs''])"
  let ?py = "(''Python'', [''python'', ''.py''])"
  let ?go = "(''Go'', [''golang'', ''.go''])"
  let ?table = "[?rs, ?py, ?go]"
  let ?w = "\<lparr>config = Inr ?table, opens = 0\<rparr>"
  let ?files = "[PyStr ''app.py'', PyStr ''main.go'']"
  let ?ws = "text_words ''golang and python'' ''web''"
  let ?r = "repo_of ''golang and python'' ''web'' [''app.py'', ''main.go'']"
  let ?r' = "repo_of ''Python   and GOLANG'' ''web'' [''app.py'', ''main.go'']"
  have c: "config ?w = Inr ?table" by simp
  have f: "repo_fields ?r ''golang and python'' ''web'' ?files"
    by (simp add: repo_fields_def repo_of_def)
  have f': "repo_fields ?r' ''Python   and GOLANG'' ''web'' ?files"
    by (simp add: repo_fields_def repo_of_def)
  have e: "text_words ''Python   and GOLANG'' ''web'' = ?ws" by code_simp
  have x: "\<forall>file\<in>set ?files. isinstance_str file" by simp
  have t: "?table = [?rs] @ ?py # [?go]" by simp
  have n: "\<forall>entry\<in>set [?rs]. \<not> language_matches ?ws ?files entry"
    by code_simp
  have m1: "language_matches ?ws ?files ?py" by code_simp
  have m2: "language_matches ?ws ?files ?go" by code_simp
  have o: "?go \<in> set [?go]" by simp
  note T = detect_language_first_match [OF f c, of _ "[?rs]" ?py "[?go]" ?go ?r'
      "''Python   and GOLANG''" "''web''"]
  have "(\<forall>file\<in>set ?files. isinstance_str file)
      \<and> ?table = [?rs] @ ?py # [?go]
      \<and> (\<forall>entry\<in>set [?rs]. \<not> language_matches ?ws ?files entry)
      \<and> language_matches ?ws ?files ?py
      \<and> ?go \<in> set [?go]
      \<and> language_matches ?ws ?files ?go"
    by (intro conjI) (rule x t n m1 m2 o)+
  with T [THEN conjunct2, THEN conjunct2, THEN conjunct1]
  have "fst (detect_language ?r ?w) = Inr (Some (fst ?py))"
    by (rule mp)
  then have r1: "fst (detect_language ?r ?w) = Inr (Some ''Python'')"
    by (simp only: fst_conv)
  have "repo_fields ?r' ''Python   and GOLANG'' ''web'' ?files
      \<and> text_words ''Python   and GOLANG'' ''web'' = ?ws"
    by (intro conjI) (rule f' e)+
  with T [THEN conjunct2, THEN conjunct2, THEN conjunct2]
  have r2: "detect_language ?r' ?w = detect_language ?r ?w"
    by (rule mp)
  from r1 e r2 show ?thesis by (intro conjI)
qed

text \<open>
  Claim C4. When \<^verbatim>\<open>repo_description\<close> is not text, or \<^verbatim>\<open>topics\<close> is not text, or
  \<^verbatim>\<open>filenames\<close> is not a list, or one of the three is absent, \<open>detect_language\<close>
  returns \<^verbatim>\<open>None\<close>, whatever the other fields and the keyword table are.
\<close>
theorem detect_language_bad_fields:
  assumes "\<not> isinstance_str (dict_get repo ''repo_description'')
           \<or> \<not> isinstance_str (dict_get repo ''topics'')
           \<or> \<not> isinstance_list (dict_get repo ''filenames'')
           \<or> repo ''repo_description'' = None \<or> repo ''topics'' = None
           \<or> repo ''filenames'' = None"
  shows "fst (detect_language repo w) = Inr None"
proof -
  from assms have "\<not> fields_ok repo"
    using fields_ok_missing [of repo] by (auto simp: fields_ok_def)
  then show ?thesis by (simp add: detect_language_unchecked)
qed

theorem detect_language_bad_fields_witness:
  "fst (detect_language [''repo_description'' \<mapsto> PyStr ''a python tool'', ''topics'' \<mapsto> PyStr ''python'']
         \<lparr>config = Inr [(''Python'', [''python'', ''.py''])], opens = 0\<rparr>) = Inr None
   \<and> fst (detect_language [''repo_description'' \<mapsto> PyNone, ''topics'' \<mapsto> PyStr ''python'',
                            ''filenames'' \<mapsto> PyList [PyStr ''a.py'']]
         \<lparr>config = Inr [(''Python'', [''python'', ''.py''])], opens = 0\<rparr>) = Inr None"
proof -
  have a: "[''repo_description'' \<mapsto> PyStr ''a python tool'', ''topics'' \<mapsto> PyStr ''python'']
      ''filenames'' = None" by simp
  have b: "\<not> isinstance_str (dict_get [''repo_description'' \<mapsto> PyNone, ''topics'' \<mapsto> PyStr ''python'',
                            ''filenames'' \<mapsto> PyList [PyStr ''a.py'']] ''repo_description'')"
    by (simp add: dict_get_def)
  from a have "fst (detect_language [''repo_description'' \<mapsto> PyStr ''a python tool'', ''topics'' \<mapsto> PyStr ''python'']
         \<lparr>config = Inr [(''Python'', [''python'', ''.py''])], opens = 0\<rparr>) = Inr None"
    by (intro detect_language_bad_fields) blast
  moreover from b have "fst (detect_language [''repo_description'' \<mapsto> PyNone, ''topics'' \<mapsto> PyStr ''python'',
                            ''filenames'' \<mapsto> PyList [PyStr ''a.py'']]
         \<lparr>config = Inr [(''Python'', [''python'', ''.py''])], opens = 0\<rparr>) = Inr None"
    by (intro detect_language_bad_fields) blast
  ultimately show ?thesis by blast
qed

text \<open>
  Claim C9. The tokens that the comma split of \<^verbatim>\<open>topics\<close> gives are not trimmed:
  joining them with commas gives the topics text back; a space after a comma stays at
  the head of the token behind it, so \<^verbatim>\<open>a, python\<close> gives the token \<^verbatim>\<open> python\<close> and
  not \<^verbatim>\<open>python\<close>, and the identifier \<^verbatim>\<open>python\<close> does not match it; and empty topics
  put the empty string in the candidate word set.
\<close>
theorem topics_tokens_untrimmed:
  "py_join '','' (split_on CHR '','' topics) = topics
   \<and> CHR '' '' # takeWhile (\<lambda>c. c \<noteq> CHR '','') (py_lower rest)
         \<in> text_words description (pre @ '', '' @ rest)
   \<and> split_on CHR '','' (py_lower ''a, python'') = [''a'', '' python'']
   \<and> '' python'' \<in> text_words '''' ''a, python''
   \<and> ''python'' \<notin> text_words '''' ''a, python''
   \<and> [] \<in> text_words description ''''
   \<and> fst (detect_language (repo_of '''' ''a, python'' [])
         \<lparr>config = Inr [(''Python'', [''python''])], opens = 0\<rparr>) = Inr None
   \<and> fst (detect_language (repo_of '''' ''a,python'' [])
         \<lparr>config = Inr [(''Python'', [''python''])], opens = 0\<rparr>) = Inr (Some ''Python'')"
proof (intro conjI)
  show "py_join '','' (split_on CHR '','' topics) = topics"
    by (rule join_split_on)
next
  let ?tail = "CHR '' '' # py_lower rest"
  have "py_lower (pre @ '', '' @ rest) = py_lower pre @ CHR '','' # ?tail"
    by (simp add: py_lower_def to_lower_comma_space)
  then have "split_on CHR '','' (py_lower (pre @ '', '' @ rest))
      = split_on CHR '','' (py_lower pre) @ split_on CHR '','' ?tail"
    by (simp only: split_on_append)
  moreover have "hd (split_on CHR '','' ?tail) \<in> set (split_on CHR '','' ?tail)"
    by (rule hd_in_set) (rule split_on_not_Nil)
  moreover have "hd (split_on CHR '','' ?tail)
      = CHR '' '' # takeWhile (\<lambda>c. c \<noteq> CHR '','') (py_lower rest)"
    by (simp only: hd_split_on) simp
  ultimately show "CHR '' '' # takeWhile (\<lambda>c. c \<noteq> CHR '','') (py_lower rest)
         \<in> text_words description (pre @ '', '' @ rest)"
    by (simp add: text_words_def)
next
  show "split_on CHR '','' (py_lower ''a, python'') = [''a'', '' python'']"
    by code_simp
next
  show "'' python'' \<in> text_words '''' ''a, python''"
    by code_simp
next
  show "''python'' \<notin> text_words '''' ''a, python''"
    by code_simp
next
  show "[] \<in> text_words description ''''"
    by (simp add: text_words_def py_lower_def)
next
  show "fst (detect_language (repo_of '''' ''a, python'' [])
         \<lparr>config = Inr [(''Python'', [''python''])], opens = 0\<rparr>) = Inr None"
    by code_simp
next
  show "fst (detect_language (repo_of '''' ''a,python'' [])
         \<lparr>config = Inr [(''Python'', [''python''])], opens = 0\<rparr>) = Inr (Some ''Python'')"
    by code_simp
qed

theorem topics_tokens_untrimmed_witness:
  "'' go'' \<in> text_words ''a tool'' ''Web, Go,cli'' \<and> [] \<in> text_words ''a tool'' ''''
   \<and> [CHR '' '', CHR 0xE9] \<in> text_words ''a tool'' (''x, '' @ [CHR 0xC9])"
proof -
  have a: "takeWhile (\<lambda>c. c \<noteq> CHR '','') (py_lower ''Go,cli'') = ''go''" by code_simp
  have b: "takeWhile (\<lambda>c. c \<noteq> CHR '','') (py_lower [CHR 0xC9]) = [CHR 0xE9]" by code_simp
  from a topics_tokens_untrimmed [of "''''" "''Go,cli''" "''a tool''" "''Web''"]
  have r1: "'' go'' \<in> text_words ''a tool'' ''Web, Go,cli'' \<and> [] \<in> text_words ''a tool'' ''''"
    by simp
  from b topics_tokens_untrimmed [of "''''" "[CHR 0xC9]" "''a tool''" "''x''"]
  have r2: "[CHR '' '', CHR 0xE9] \<in> text_words ''a tool'' (''x, '' @ [CHR 0xC9])"
    by simp
  from r1 r2 show ?thesis by simp
qed

text \<open>
  Claim C10. The fields are checked before the configuration file is opened: a record
  that fails the check gets \<^verbatim>\<open>None\<close> and the file is not opened, whatever opening it
  would give; a record that passes the check has the file opened, and an exception of
  \<^verbatim>\<open>open\<close> or \<^verbatim>\<open>json.load\<close> reaches the caller.
\<close>
theorem detect_language_checks_before_open:
  "(\<not> fields_ok repo \<longrightarrow> detect_language repo w = (Inr None, w))
   \<and> (fields_ok repo \<and> config w = Inl e
        \<longrightarrow> detect_language repo w = (Inl e, w\<lparr>opens := Suc (opens w)\<rparr>))"
  by (simp add: detect_language_unchecked detect_language_load_error)

theorem detect_language_checks_before_open_witness:
  "detect_language [''repo_description'' \<mapsto> PyStr ''a python tool'', ''topics'' \<mapsto> PyInt 3,
                    ''filenames'' \<mapsto> PyList []]
       \<lparr>config = Inl FileNotFoundError, opens = 0\<rparr>
     = (Inr None, \<lparr>config = Inl FileNotFoundError, opens = 0\<rparr>)
   \<and> detect_language (repo_of ''a python tool'' '''' [])
       \<lparr>config = Inl FileNotFoundError, opens = 0\<rparr>
     = (Inl FileNotFoundError, \<lparr>config = Inl FileNotFoundError, opens = 1\<rparr>)"
proof -
  let ?w = "\<lparr>config = Inl FileNotFoundError, opens = 0\<rparr>"
  have a: "\<not> fields_ok [''repo_description'' \<mapsto> PyStr ''a python tool'', ''topics'' \<mapsto> PyInt 3,
                    ''filenames'' \<mapsto> PyList []]"
    by (simp add: fields_ok_def dict_get_def)
  have b: "fields_ok (repo_of ''a python tool'' '''' [])"
    by (simp add: fields_ok_def dict_get_def repo_of_def)
  have c: "config ?w = Inl FileNotFoundError" by simp
  from a b c
    detect_language_checks_before_open [of "[''repo_description'' \<mapsto> PyStr ''a python tool'',
       ''topics'' \<mapsto> PyInt 3, ''filenames'' \<mapsto> PyList []]" ?w]
    detect_language_checks_before_open [of "repo_of ''a python tool'' '''' []" ?w FileNotFoundError]
  show ?thesis by simp
qed

subsection \<open>top_ranked_repos\<close>

text \<open>
  Claim C8 as it is written fails on two kinds of call. A table with a numeric column
  \<^verbatim>\<open>stars\<close> and no column \<^verbatim>\<open>repo_name\<close> makes line 113 raise \<^verbatim>\<open>KeyError\<close>, and
  nothing is returned. With \<open>n = -1\<close> and three rows the function returns two rows,
  all but the last of the descending order, where the first \<open>n\<close> rows in the words of
  the claim are no rows.
\<close>
theorem top_ranked_repos_counterexample:
  "numeric_column ''stars''
      \<lparr>columns = [''name'', ''stars''],
       rows = [[(''name'', Txt ''a''), (''stars'', Num (3::int))]]\<rparr>
   \<and> top_ranked_repos
      \<lparr>columns = [''name'', ''stars''],
       rows = [[(''name'', Txt ''a''), (''stars'', Num (3::int))]]\<rparr> ''stars'' 5 = Inl KeyError
   \<and> top_ranked_repos
      \<lparr>columns = [''repo_name'', ''stars''],
       rows = [[(''repo_name'', Txt ''a''), (''stars'', Num (3::int))],
               [(''repo_name'', Txt ''b''), (''stars'', Num 9)],
               [(''repo_name'', Txt ''c''), (''stars'', Num 5)]]\<rparr> ''stars'' (- 1)
     = Inr \<lparr>columns = [''repo_name'', ''stars''],
            rows = [[(''repo_name'', Txt ''b''), (''stars'', Num 9)],
                    [(''repo_name'', Txt ''c''), (''stars'', Num 5)]]\<rparr>
   \<and> first_n_rows (- 1)
        [[(''repo_name'', Txt ''b''), (''stars'', Num (9::int))],
         [(''repo_name'', Txt ''c''), (''stars'', Num 5)],
         [(''repo_name'', Txt ''a''), (''stars'', Num 3)]] = []"
proof (intro conjI)
  show "numeric_column ''stars''
      \<lparr>columns = [''name'', ''stars''],
       rows = [[(''name'', Txt ''a''), (''stars'', Num (3::int))]]\<rparr>"
    by code_simp
  show "top_ranked_repos
      \<lparr>columns = [''name'', ''stars''],
       rows = [[(''name'', Txt ''a''), (''stars'', Num (3::int))]]\<rparr> ''stars'' 5 = Inl KeyError"
    by code_simp
  show "top_ranked_repos
      \<lparr>columns = [''repo_name'', ''stars''],
       rows = [[(''repo_name'', Txt ''a''), (''stars'', Num (3::int))],
               [(''repo_name'', Txt ''b''), (''stars'', Num 9)],
               [(''repo_name'', Txt ''c''), (''stars'', Num 5)]]\<rparr> ''stars'' (- 1)
     = Inr \<lparr>columns = [''repo_name'', ''stars''],
            rows = [[(''repo_name'', Txt ''b''), (''stars'', Num 9)],
                    [(''repo_name'', Txt ''c''), (''stars'', Num 5)]]\<rparr>"
    by code_simp
  show "first_n_rows (- 1)
        [[(''repo_name'', Txt ''b''), (''stars'', Num (9::int))],
         [(''repo_name'', Txt ''c''), (''stars'', Num 5)],
         [(''repo_name'', Txt ''a''), (''stars'', Num 3)]] = []"
    by (simp add: first_n_rows_def)
qed

text \<open>
  Claim C8, amended. For a table with a numeric column \<open>feature\<close> and a column
  \<^verbatim>\<open>repo_name\<close>, and a row count \<open>n\<close> that is not negative, \<open>top_ranked_repos\<close>
  returns a table with the same columns whose rows are the first \<open>n\<close> rows of a
  rearrangement of the rows of \<open>df\<close> in descending order of the feature: \<open>n\<close> rows, or
  all of them when \<open>df\<close> has fewer.
\<close>
theorem top_ranked_repos_sorted_head:
  assumes "numeric_column feature df" and "''repo_name'' \<in> set (columns df)" and "0 \<le> n"
  shows "\<exists>top sorted_rows.
           top_ranked_repos df feature n = Inr top
           \<and> mset sorted_rows = mset (rows df)
           \<and> descending feature sorted_rows
           \<and> rows top = first_n_rows n sorted_rows
           \<and> length (rows top) = min (nat n) (length (rows df))
           \<and> descending feature (rows top)
           \<and> columns top = columns df"
proof -
  let ?sorted = "rev (sort_key (feature_value feature) (rev (rows df)))"
  let ?top = "head n (df\<lparr>rows := ?sorted\<rparr>)"
  have 1: "top_ranked_repos df feature n = Inr ?top"
    by (rule top_ranked_repos_rows [OF assms(1,2)])
  have 2: "mset ?sorted = mset (rows df)" by (rule mset_sort_desc)
  have 3: "descending feature ?sorted" by (rule descending_sort)
  have r: "rows ?top = take (nat n) ?sorted"
    using assms(3) by (simp add: head_def)
  then have 4: "rows ?top = first_n_rows n ?sorted"
    by (simp only: first_n_rows_take [OF assms(3)])
  have 5: "length (rows ?top) = min (nat n) (length (rows df))"
    by (simp add: r min.commute)
  have 6: "descending feature (rows ?top)"
    using descending_take [OF 3, of "nat n"] by (simp only: r)
  have 7: "columns ?top = columns df" by (simp add: head_def)
  from 1 2 3 4 5 6 7 show ?thesis by blast
qed

theorem top_ranked_repos_sorted_head_witness:
  "\<exists>top. top_ranked_repos
      \<lparr>columns = [''repo_name'', ''stars''],
       rows = [[(''repo_name'', Txt ''a''), (''stars'', Num (3::int))],
               [(''repo_name'', Txt ''b''), (''stars'', Num 9)],
               [(''repo_name'', Txt ''c''), (''stars'', Num 5)]]\<rparr> ''stars'' 2 = Inr top
        \<and> length (rows top) = 2 \<and> descending ''stars'' (rows top)"
proof -
  let ?df = "\<lparr>columns = [''repo_name'', ''stars''],
       rows = [[(''repo_name'', Txt ''a''), (''stars'', Num (3::int))],
               [(''repo_name'', Txt ''b''), (''stars'', Num 9)],
               [(''repo_name'', Txt ''c''), (''stars'', Num 5)]]\<rparr>"
  have a: "numeric_column ''stars'' ?df" by code_simp
  have b: "''repo_name'' \<in> set (columns ?df)" by simp
  have c: "(0::int) \<le> 2" by simp
  from top_ranked_repos_sorted_head [OF a b c]
  obtain top where t: "top_ranked_repos ?df ''stars'' 2 = Inr top"
    "length (rows top) = min (nat 2) (length (rows ?df))"
    "descending ''stars'' (rows top)"
    by blast
  from t(2) have "length (rows top) = 2" by simp
  with t(1,3) show ?thesis by blast
qed

end
